theory Spec2Isabelle
  imports Complex_Main
begin

section \<open>Data model\<close>

text \<open>
  The interfaces of \<^verbatim>\<open>src/src/App.tsx\<close> (lines 4 to 33). A JavaScript number is
  a double; the model holds the real value of a finite one, and the arithmetic of the code
  rounds (section Numbers). A value read from the JSON of the backend may lack any field,
  and the code tests for that (\<^verbatim>\<open>!result.detected_objects\<close>,
  \<^verbatim>\<open>data.caption && data.detected_objects\<close>), so the fields of a result are
  options: \<open>None\<close> is JavaScript's \<^verbatim>\<open>undefined\<close>. A field that is present
  has the type its interface gives it, and a detected object has its label and its box.
\<close>

record DetectedObject =
  label :: string
  confidence :: real
  bounding_box :: "real \<times> real \<times> real \<times> real"

record ProcessingResult =
  caption :: "string option"
  detected_objects :: "DetectedObject list option"
  guidance :: "string option"
  model_used :: "string option"
  fusion_enabled :: "bool option"
  annotated_image_base64 :: "string option"
  annotated_image :: "string option"

text \<open>
  The body of a 2xx answer of \<^verbatim>\<open>/process_camera\<close>: the fields it may carry
  flat, and the object under its \<^verbatim>\<open>data\<close> key.
\<close>

record ApiResponse = ProcessingResult +
  data :: "ProcessingResult option"

datatype Direction = DirLeft | DirRight | DirForward | DirStop

datatype Priority = Safe | Caution | Danger

record NavigationInstruction =
  direction :: Direction
  priority :: Priority
  message :: string
  reason :: string

datatype Zone = ZoneLeft | ZoneFront | ZoneRight

section \<open>JavaScript helpers\<close>

text \<open>A string is truthy when it is present and not empty; an array or object when present.\<close>

definition truthy :: "string option \<Rightarrow> bool" where
  "truthy v = (case v of None \<Rightarrow> False | Some s \<Rightarrow> s \<noteq> [])"

text \<open>\<^verbatim>\<open>v || d\<close> for a string that may be missing.\<close>

definition orElse :: "string option \<Rightarrow> string \<Rightarrow> string" where
  "orElse v d = (case v of None \<Rightarrow> d | Some s \<Rightarrow> if s = [] then d else s)"

text \<open>
  toLowerCase as far as membership in the list of obstacle labels goes, all of whose
  characters are ASCII letters in lower case: the letters A to Z are lowered. A character
  above 127 is left as it is, where JavaScript may lower it to another character above
  127; a label that holds one is in the list under neither.
\<close>

definition toLowerCaseChar :: "char \<Rightarrow> char" where
  "toLowerCaseChar c =
     (case map_of (zip ''ABCDEFGHIJKLMNOPQRSTUVWXYZ'' ''abcdefghijklmnopqrstuvwxyz'') c of
        None \<Rightarrow> c
      | Some l \<Rightarrow> l)"

definition toLowerCase :: "string \<Rightarrow> string" where
  "toLowerCase s = map toLowerCaseChar s"

fun join :: "string \<Rightarrow> string list \<Rightarrow> string" where
  "join sep [] = []"
| "join sep [x] = x"
| "join sep (x # y # ys) = x @ sep @ join sep (y # ys)"

text \<open>
  A character of the model is a code unit below 256. Of the white space and line
  terminators that \<^verbatim>\<open>String.prototype.trim\<close> strips, these are the ones below 256:
  tab, line feed, vertical tab, form feed, carriage return, space, and the no-break space
  U+00A0. The others (U+1680, U+2000 to U+200A, U+2028, U+2029, U+202F, U+205F, U+3000,
  U+FEFF) are no characters of the model's strings.
\<close>

definition isSpace :: "char \<Rightarrow> bool" where
  "isSpace c =
     (c \<in> set [CHR 0x09, CHR 0x0A, CHR 0x0B, CHR 0x0C, CHR 0x0D, CHR 0x20, CHR 0xA0])"

definition trim :: "string \<Rightarrow> string" where
  "trim s = rev (dropWhile isSpace (rev (dropWhile isSpace s)))"

definition startsWith :: "string \<Rightarrow> string \<Rightarrow> bool" where
  "startsWith s p = (take (length p) s = p)"

section \<open>Numbers\<close>

text \<open>
  The numbers of the code are IEEE 754 doubles. A number is modelled by its real value,
  and each arithmetic operation of the code by the exact operation followed by \<open>fl\<close>,
  which rounds a real to the nearest double, ties to the even significand: 53 significant
  bits, and below \<open>2 powi (- 1022)\<close> the fixed spacing \<open>2 powi (- 1074)\<close> of the
  subnormal numbers. \<open>binade a\<close> is the exponent \<open>e\<close> of the doubles around a positive
  \<open>a\<close>, \<open>2 powi e \<le> a < 2 powi (e + 1)\<close>, searched from 0 and kept within the exponents
  \<open>- 1022\<close> to \<open>1023\<close> that doubles have. Above the largest double the code yields an
  infinity where the model keeps a finite value: that takes a sum of box coordinates beyond
  \<open>1.7e308\<close>, and the finite value lies on the same side of every threshold below as the
  infinity does.
\<close>

definition roundEven :: "real \<Rightarrow> int" where
  "roundEven y =
     (let f = \<lfloor>y\<rfloor>; d = y - of_int f
      in if d < 1 / 2 then f else if 1 / 2 < d then f + 1 else if even f then f else f + 1)"

fun binadeUp :: "nat \<Rightarrow> int \<Rightarrow> real \<Rightarrow> int" where
  "binadeUp 0 e a = e"
| "binadeUp (Suc n) e a = (if 2 powi (e + 1) \<le> a then binadeUp n (e + 1) a else e)"

fun binadeDown :: "nat \<Rightarrow> int \<Rightarrow> real \<Rightarrow> int" where
  "binadeDown 0 e a = e"
| "binadeDown (Suc n) e a = (if a < 2 powi e then binadeDown n (e - 1) a else e)"

definition binade :: "real \<Rightarrow> int" where
  "binade a = (if 1 \<le> a then binadeUp 1023 0 a else binadeDown 1022 0 a)"

definition fl :: "real \<Rightarrow> real" where
  "fl x =
     (if x = 0 then 0
      else of_int (roundEven (x / 2 powi (binade \<bar>x\<bar> - 52))) * 2 powi (binade \<bar>x\<bar> - 52))"

section \<open>Zone classifier: getObjectsInZone\<close>

text \<open>
  \<^verbatim>\<open>const width = imgRef.current?.naturalWidth || 640\<close>: the natural width of the
  displayed frame, and 640 when there is no image element or its natural width is 0. The
  natural width of an image is a whole number below \<open>2 ^ 32\<close>, so it is a double.
\<close>

definition effectiveWidth :: "nat option \<Rightarrow> real" where
  "effectiveWidth naturalWidth =
     (case naturalWidth of None \<Rightarrow> 640 | Some n \<Rightarrow> if n = 0 then 640 else real n)"

text \<open>\<^verbatim>\<open>const centerX = (x1 + x2) / 2\<close>: a sum and a quotient, each rounded.\<close>

definition centerX :: "DetectedObject \<Rightarrow> real" where
  "centerX obj = (case bounding_box obj of (x1, y1, x2, y2) \<Rightarrow> fl (fl (x1 + x2) / 2))"

text \<open>
  The callback of the filter in getObjectsInZone (lines 201 to 210). The code's
  \<^verbatim>\<open>width / 3\<close> is \<open>fl (width / 3)\<close>, and its \<^verbatim>\<open>2 * width / 3\<close>, a product
  and then a quotient, is \<open>fl (fl (2 * width) / 3)\<close>.
\<close>

definition inZone :: "Zone \<Rightarrow> real \<Rightarrow> DetectedObject \<Rightarrow> bool" where
  "inZone zone width obj =
     (if zone = ZoneRight \<and> centerX obj < fl (width / 3) then True
      else if zone = ZoneLeft \<and> centerX obj > fl (fl (2 * width) / 3) then True
      else if zone = ZoneFront \<and> centerX obj \<ge> fl (width / 3)
                \<and> centerX obj \<le> fl (fl (2 * width) / 3) then True
      else False)"

text \<open>
  getObjectsInZone reads two things that are not parameters: the \<^verbatim>\<open>result\<close> state
  of the render whose closure it belongs to, and the image element. Both are arguments here.
\<close>

definition getObjectsInZone :: "ProcessingResult option \<Rightarrow> nat option \<Rightarrow> Zone \<Rightarrow> DetectedObject list" where
  "getObjectsInZone result naturalWidth zone =
     (case result of
        None \<Rightarrow> []
      | Some r \<Rightarrow>
          (case detected_objects r of
             None \<Rightarrow> []
           | Some objs \<Rightarrow> filter (inZone zone (effectiveWidth naturalWidth)) objs))"

section \<open>Navigation decision engine: generateNavigationInstructions\<close>

definition dangerousObjects :: "string list" where
  "dangerousObjects =
     [''person'', ''car'', ''truck'', ''bicycle'', ''motorcycle'',
      ''chair'', ''table'', ''bench'', ''couch'', ''bed'']"

definition isDangerous :: "DetectedObject \<Rightarrow> bool" where
  "isDangerous obj = (toLowerCase (label obj) \<in> set dangerousObjects)"

definition labels :: "DetectedObject list \<Rightarrow> string" where
  "labels objs = join '', '' (map label objs)"

text \<open>
  Lines 213 to 283. The three zone lists come from getObjectsInZone, that is from the
  \<^verbatim>\<open>result\<close> state captured by the closure; the parameter \<^verbatim>\<open>objects\<close>
  is read in the last branch only.
\<close>

definition generateNavigationInstructions ::
  "ProcessingResult option \<Rightarrow> nat option \<Rightarrow> DetectedObject list \<Rightarrow> NavigationInstruction" where
  "generateNavigationInstructions result naturalWidth objects =
     (let leftObjects = getObjectsInZone result naturalWidth ZoneLeft;
          frontObjects = getObjectsInZone result naturalWidth ZoneFront;
          rightObjects = getObjectsInZone result naturalWidth ZoneRight;
          leftDanger = filter isDangerous leftObjects;
          frontDanger = filter isDangerous frontObjects;
          rightDanger = filter isDangerous rightObjects
      in
        if length frontDanger > 0 then
          (if length leftDanger = 0 then
             \<lparr>direction = DirLeft, priority = Caution,
              message = ''Path blocked ahead. Move left.'',
              reason = ''Obstacle detected: '' @ labels frontDanger\<rparr>
           else if length rightDanger = 0 then
             \<lparr>direction = DirRight, priority = Caution,
              message = ''Path blocked ahead. Move right.'',
              reason = ''Obstacle detected: '' @ labels frontDanger\<rparr>
           else
             \<lparr>direction = DirStop, priority = Danger,
              message = ''Stop! Obstacles in all directions.'',
              reason = ''Multiple obstacles detected''\<rparr>)
        else if length leftObjects = 0 \<and> length rightObjects = 0 then
          \<lparr>direction = DirForward, priority = Safe,
           message = ''Clear path ahead. Safe to proceed.'',
           reason = ''No obstacles detected''\<rparr>
        else if length leftDanger > 0 \<and> length rightDanger = 0 then
          \<lparr>direction = DirRight, priority = Caution,
           message = ''Obstacle on left. Stay right.'',
           reason = ''Left side: '' @ labels leftDanger\<rparr>
        else if length rightDanger > 0 \<and> length leftDanger = 0 then
          \<lparr>direction = DirLeft, priority = Caution,
           message = ''Obstacle on right. Stay left.'',
           reason = ''Right side: '' @ labels rightDanger\<rparr>
        else
          \<lparr>direction = DirForward, priority = Caution,
           message = ''Proceed with caution. Objects nearby.'',
           reason = ''Detected: '' @ labels (take 3 objects)\<rparr>)"

section \<open>Session state\<close>

text \<open>
  The state of the component \<^verbatim>\<open>App\<close> (lines 38 to 57) that the claims are about.
  A function of a React component reads the state of the render that created it: what
  \<^verbatim>\<open>processFrame\<close> reads of it (\<^verbatim>\<open>isCameraRunning\<close> at line 387 and,
  through getObjectsInZone, \<^verbatim>\<open>result\<close>) is the closure below. A call of a state
  setter changes the state of the next render, never the closure that runs.
\<close>

record Closure =
  c_isCameraRunning :: bool
  c_result :: "ProcessingResult option"

text \<open>
  Besides the \<^verbatim>\<open>useState\<close> variables: the natural width of the image element
  (\<open>None\<close> while the element is not mounted, which is whenever the camera is off, line 661);
  the calls of startFrameStreaming that \<^verbatim>\<open>setTimeout\<close> has scheduled and not yet
  run; the variable \<^verbatim>\<open>count\<close> of every call of startFrameStreaming so far, in the
  order of the calls; the call whose interval \<^verbatim>\<open>intervalRef\<close> holds; the requests
  to \<^verbatim>\<open>/camera/frame\<close> that have not been answered, each with the call whose
  \<^verbatim>\<open>count\<close> its callback will increment; the interval of
  \<^verbatim>\<open>processIntervalRef\<close> with the closure of the \<^verbatim>\<open>processFrame\<close> its
  callback calls; and the requests to \<^verbatim>\<open>/process_camera\<close> that have not been
  answered, each with the closure that sent it. Speech, the canvas and the console are
  not part of the record.
\<close>

record Session =
  isCameraRunning :: bool
  isProcessing :: bool
  result :: "ProcessingResult option"
  error :: string
  frameCount :: nat
  autoProcess :: bool
  voiceEnabled :: bool
  annotatedImage :: "string option"
  navigationInstructions :: "NavigationInstruction option"
  naturalWidth :: "nat option"
  streamingTimeouts :: nat
  counts :: "nat list"
  frameStream :: "nat option"
  frameFetches :: "nat list"
  processInterval :: "Closure option"
  inFlight :: "Closure list"

definition initial :: Session where
  "initial =
     \<lparr>isCameraRunning = False, isProcessing = False, result = None, error = [],
      frameCount = 0, autoProcess = False, voiceEnabled = False, annotatedImage = None,
      navigationInstructions = None, naturalWidth = None, streamingTimeouts = 0,
      counts = [], frameStream = None, frameFetches = [],
      processInterval = None, inFlight = []\<rparr>"

definition closure :: "Session \<Rightarrow> Closure" where
  "closure s = \<lparr>c_isCameraRunning = isCameraRunning s, c_result = result s\<rparr>"

section \<open>Camera lifecycle and frame polling\<close>

datatype StartResponse = StartOk | StartNotOk "string option" | StartRejected

text \<open>
  startCamera (lines 114 to 135), from the answer of \<^verbatim>\<open>/camera/start\<close> on. The
  image element is mounted by the render that follows, with no image in it. The call of
  startFrameStreaming is scheduled, not made: \<^verbatim>\<open>setTimeout(..., 500)\<close>.
\<close>

definition startCamera :: "StartResponse \<Rightarrow> Session \<Rightarrow> Session" where
  "startCamera r s =
     (case r of
        StartOk \<Rightarrow>
          s\<lparr>isCameraRunning := True, error := [],
            naturalWidth := (case naturalWidth s of None \<Rightarrow> Some 0 | Some n \<Rightarrow> Some n),
            streamingTimeouts := Suc (streamingTimeouts s)\<rparr>
      | StartNotOk e \<Rightarrow> s\<lparr>error := orElse e ''Failed to start camera''\<rparr>
      | StartRejected \<Rightarrow> s\<lparr>error := ''Error connecting to server''\<rparr>)"

text \<open>
  startFrameStreaming (lines 162 to 187) tests nothing of the camera: it replaces the
  interval of \<^verbatim>\<open>intervalRef\<close> by a new one, whose callbacks share a new
  \<^verbatim>\<open>count = 0\<close>. stopFrameStreaming (lines 189 to 194) clears the interval.
\<close>

definition startFrameStreaming :: "Session \<Rightarrow> Session" where
  "startFrameStreaming s = s\<lparr>counts := counts s @ [0], frameStream := Some (length (counts s))\<rparr>"

definition stopFrameStreaming :: "Session \<Rightarrow> Session" where
  "stopFrameStreaming s = s\<lparr>frameStream := None\<rparr>"

datatype StopResponse = StopResolved | StopRejected

text \<open>
  stopCamera (lines 137 to 160), from the outcome of the request to
  \<^verbatim>\<open>/camera/stop\<close> on: every write of the \<^verbatim>\<open>try\<close> block when the
  request resolved (whatever its status), the \<^verbatim>\<open>catch\<close> block when it was rejected.
  The image element is unmounted by the render that follows. Frame requests that were
  sent stay pending.
\<close>

definition stopCamera :: "StopResponse \<Rightarrow> Session \<Rightarrow> Session" where
  "stopCamera r s =
     (case r of
        StopResolved \<Rightarrow>
          (stopFrameStreaming s)
            \<lparr>isCameraRunning := False, autoProcess := False,
             naturalWidth := None, frameCount := 0, result := None,
             navigationInstructions := None, annotatedImage := None\<rparr>
      | StopRejected \<Rightarrow> s\<lparr>error := ''Error stopping camera''\<rparr>)"

text \<open>
  The callback of the frame interval (lines 168 to 186) in its two halves. frameFetch is
  a firing of the interval of call \<open>k\<close>: the request is sent. frameAnswer is the
  continuation when the request of a callback of call \<open>k\<close> is answered, whenever that is:
  \<open>Some w\<close> is a frame of natural width \<open>w\<close>, shown if the image element is mounted and
  counted in any case; \<open>None\<close> is an answer that is not ok or a failed request, logged and
  skipped. The variable \<^verbatim>\<open>count\<close> of a call exists once the call was made, so
  \<open>k\<close> is below the length of \<open>counts\<close> in every run.
\<close>

definition frameFetch :: "nat \<Rightarrow> Session \<Rightarrow> Session" where
  "frameFetch k s = s\<lparr>frameFetches := frameFetches s @ [k]\<rparr>"

definition frameAnswer :: "nat \<Rightarrow> nat option \<Rightarrow> Session \<Rightarrow> Session" where
  "frameAnswer k f s =
     (case f of
        None \<Rightarrow> s
      | Some w \<Rightarrow>
          if k < length (counts s)
          then s\<lparr>naturalWidth := (case naturalWidth s of None \<Rightarrow> None | Some n \<Rightarrow> Some w),
                 counts := (counts s)[k := Suc (counts s ! k)],
                 frameCount := Suc (counts s ! k)\<rparr>
          else s)"

section \<open>processFrame\<close>

datatype ProcessResponse = Rejected string | NotOk "string option" | Ok ApiResponse

text \<open>
  processFrame up to its \<^verbatim>\<open>await fetch\<close> (lines 386 to 399). The only test is the
  closure's \<^verbatim>\<open>isCameraRunning\<close>; \<^verbatim>\<open>isProcessing\<close> is written, never read.
\<close>

definition processFrame_start :: "Closure \<Rightarrow> Session \<Rightarrow> Session" where
  "processFrame_start c s =
     (if \<not> c_isCameraRunning c then s\<lparr>error := ''Please start the camera first''\<rparr>
      else s\<lparr>isProcessing := True, error := [], inFlight := inFlight s @ [c]\<rparr>)"

text \<open>Lines 428 to 443: the first truthy one of four places.\<close>

definition annotatedImageData :: "ApiResponse \<Rightarrow> string option" where
  "annotatedImageData dat =
     (if truthy (annotated_image_base64 dat) then annotated_image_base64 dat
      else
        (case data dat of
           Some d \<Rightarrow>
             if truthy (annotated_image_base64 d) then annotated_image_base64 d
             else if truthy (annotated_image dat) then annotated_image dat
             else if truthy (annotated_image d) then annotated_image d
             else None
         | None \<Rightarrow> if truthy (annotated_image dat) then annotated_image dat else None))"

text \<open>Lines 424 to 478: what is written once \<^verbatim>\<open>resultData\<close> has been chosen.\<close>

definition applyResult :: "Closure \<Rightarrow> ProcessingResult \<Rightarrow> ApiResponse \<Rightarrow> Session \<Rightarrow> Session" where
  "applyResult c resultData dat s =
     s\<lparr>result := Some resultData,
       error := [],
       annotatedImage :=
         (case annotatedImageData dat of
            None \<Rightarrow> None
          | Some a \<Rightarrow>
              Some (if startsWith (trim a) ''data:image'' then trim a
                    else ''data:image/jpeg;base64,'' @ trim a)),
       navigationInstructions :=
         (case detected_objects resultData of
            None \<Rightarrow> None
          | Some detectedObjects \<Rightarrow>
              if length detectedObjects > 0
              then Some (generateNavigationInstructions (c_result c) (naturalWidth s) detectedObjects)
              else None),
       isProcessing := False\<rparr>"

text \<open>
  processFrame from the answer on (lines 401 to 493), with the \<^verbatim>\<open>finally\<close> block
  in every branch.
\<close>

definition processFrame_resume :: "Closure \<Rightarrow> ProcessResponse \<Rightarrow> Session \<Rightarrow> Session" where
  "processFrame_resume c r s =
     (case r of
        Ok dat \<Rightarrow>
          (case data dat of
             Some d \<Rightarrow> applyResult c d dat s
           | None \<Rightarrow>
               if truthy (caption dat) \<and> detected_objects dat \<noteq> None
               then applyResult c (ProcessingResult.truncate dat) dat s
               else s\<lparr>error := ''Invalid API response structure'', isProcessing := False\<rparr>)
      | NotOk detail \<Rightarrow>
          s\<lparr>error := orElse detail ''Processing failed'',
            annotatedImage := None, isProcessing := False\<rparr>
      | Rejected err \<Rightarrow>
          s\<lparr>error := ''Error processing frame: '' @ err,
            annotatedImage := None, isProcessing := False\<rparr>)"

section \<open>The scheduler\<close>

text \<open>
  The events of the single thread: the answers to the camera requests, the timeout that
  starts the frame polling, a firing of either interval, the answer to the \<open>i\<close>-th
  pending frame request, the three controls, and the answer to the \<open>i\<close>-th pending
  processing request.
\<close>

datatype Event =
    StartCamera StartResponse
  | StopCamera StopResponse
  | StreamingTimeout
  | FrameTick
  | FrameResponse nat "nat option"
  | SetAutoProcess bool
  | SetVoiceEnabled bool
  | ClickProcess
  | AutoProcessTick
  | Response nat ProcessResponse

text \<open>
  The auto-process checkbox is disabled while the camera is off (line 638) and the process
  button while \<^verbatim>\<open>!isCameraRunning || isProcessing || autoProcess\<close> (line 795). The
  button calls the processFrame of the latest render; the interval calls the one it captured.
\<close>

fun handle :: "Event \<Rightarrow> Session \<Rightarrow> Session" where
  "handle (StartCamera r) s = startCamera r s"
| "handle (StopCamera r) s = stopCamera r s"
| "handle StreamingTimeout s =
     (if streamingTimeouts s = 0 then s
      else startFrameStreaming (s\<lparr>streamingTimeouts := streamingTimeouts s - 1\<rparr>))"
| "handle FrameTick s =
     (case frameStream s of None \<Rightarrow> s | Some k \<Rightarrow> frameFetch k s)"
| "handle (FrameResponse i f) s =
     (if i < length (frameFetches s)
      then frameAnswer (frameFetches s ! i) f
             (s\<lparr>frameFetches := take i (frameFetches s) @ drop (Suc i) (frameFetches s)\<rparr>)
      else s)"
| "handle (SetAutoProcess b) s = (if \<not> isCameraRunning s then s else s\<lparr>autoProcess := b\<rparr>)"
| "handle (SetVoiceEnabled b) s = s\<lparr>voiceEnabled := b\<rparr>"
| "handle ClickProcess s =
     (if \<not> isCameraRunning s \<or> isProcessing s \<or> autoProcess s then s
      else processFrame_start (closure s) s)"
| "handle AutoProcessTick s =
     (case processInterval s of None \<Rightarrow> s | Some c \<Rightarrow> processFrame_start c s)"
| "handle (Response i r) s =
     (if i < length (inFlight s)
      then processFrame_resume (inFlight s ! i) r
             (s\<lparr>inFlight := take i (inFlight s) @ drop (Suc i) (inFlight s)\<rparr>)
      else s)"

text \<open>
  The effect of lines 71 to 88 runs after a render in which \<^verbatim>\<open>autoProcess\<close> or
  \<^verbatim>\<open>isCameraRunning\<close> changed: it clears the interval and, when both hold, sets a new
  one whose callback is the processFrame of that render.
\<close>

definition autoProcessEffect :: "Session \<Rightarrow> Session \<Rightarrow> Session" where
  "autoProcessEffect prev s =
     (if autoProcess s = autoProcess prev \<and> isCameraRunning s = isCameraRunning prev then s
      else if autoProcess s \<and> isCameraRunning s then s\<lparr>processInterval := Some (closure s)\<rparr>
      else s\<lparr>processInterval := None\<rparr>)"

definition step :: "Event \<Rightarrow> Session \<Rightarrow> Session" where
  "step e s = autoProcessEffect s (handle e s)"

fun run :: "Event list \<Rightarrow> Session \<Rightarrow> Session" where
  "run [] s = s"
| "run (e # es) s = run es (step e s)"

section \<open>The decision procedure in the words of the specification\<close>

text \<open>
  Sections 4.1 and 4.2 of the specification, written down as they read and computed in
  the arithmetic of the code, to compare generateNavigationInstructions with: the zone of
  a box from the image width, and the seven rules in their order over the zones of the
  objects passed in. The reasons carry the prefixes of the code; the obstacle labels are
  the fixed list of the code.
\<close>

definition spec_zone_of :: "real \<Rightarrow> DetectedObject \<Rightarrow> Zone" where
  "spec_zone_of image_width obj =
     (if centerX obj < fl (image_width / 3) then ZoneRight
      else if centerX obj > fl (fl (2 * image_width) / 3) then ZoneLeft
      else ZoneFront)"

definition spec_decide :: "real \<Rightarrow> DetectedObject list \<Rightarrow> NavigationInstruction" where
  "spec_decide image_width objects =
     (let LEFT = filter (\<lambda>obj. spec_zone_of image_width obj = ZoneLeft) objects;
          FRONT = filter (\<lambda>obj. spec_zone_of image_width obj = ZoneFront) objects;
          RIGHT = filter (\<lambda>obj. spec_zone_of image_width obj = ZoneRight) objects;
          leftObstacles = filter isDangerous LEFT;
          frontObstacles = filter isDangerous FRONT;
          rightObstacles = filter isDangerous RIGHT
      in
        if frontObstacles \<noteq> [] \<and> leftObstacles = [] then
          \<lparr>direction = DirLeft, priority = Caution,
           message = ''Path blocked ahead. Move left.'',
           reason = ''Obstacle detected: '' @ labels frontObstacles\<rparr>
        else if frontObstacles \<noteq> [] \<and> rightObstacles = [] then
          \<lparr>direction = DirRight, priority = Caution,
           message = ''Path blocked ahead. Move right.'',
           reason = ''Obstacle detected: '' @ labels frontObstacles\<rparr>
        else if frontObstacles \<noteq> [] then
          \<lparr>direction = DirStop, priority = Danger,
           message = ''Stop! Obstacles in all directions.'',
           reason = ''Multiple obstacles detected''\<rparr>
        else if LEFT = [] \<and> RIGHT = [] then
          \<lparr>direction = DirForward, priority = Safe,
           message = ''Clear path ahead. Safe to proceed.'',
           reason = ''No obstacles detected''\<rparr>
        else if leftObstacles \<noteq> [] \<and> rightObstacles = [] then
          \<lparr>direction = DirRight, priority = Caution,
           message = ''Obstacle on left. Stay right.'',
           reason = ''Left side: '' @ labels leftObstacles\<rparr>
        else if rightObstacles \<noteq> [] \<and> leftObstacles = [] then
          \<lparr>direction = DirLeft, priority = Caution,
           message = ''Obstacle on right. Stay left.'',
           reason = ''Right side: '' @ labels rightObstacles\<rparr>
        else
          \<lparr>direction = DirForward, priority = Caution,
           message = ''Proceed with caution. Objects nearby.'',
           reason = ''Detected: '' @ labels (take 3 objects)\<rparr>)"

section \<open>The scenes of the documentation\<close>

text \<open>
  The example scene of the repository's documentation, 640 pixels wide: a chair at
  \<open>x = 100\<close> with centre 150, a person with centre 320, a table at \<open>x = 500\<close> with
  centre 550; and the two envelopes a result may arrive in.
\<close>

definition chair :: DetectedObject where
  "chair = \<lparr>label = ''chair'', confidence = 9 / 10, bounding_box = (100, 200, 200, 400)\<rparr>"

definition person :: DetectedObject where
  "person = \<lparr>label = ''person'', confidence = 19 / 20, bounding_box = (270, 100, 370, 450)\<rparr>"

definition table :: DetectedObject where
  "table = \<lparr>label = ''table'', confidence = 4 / 5, bounding_box = (500, 250, 600, 400)\<rparr>"

text \<open>An object whose box has both its edges at \<open>x\<close>.\<close>

definition cupAt :: "real \<Rightarrow> DetectedObject" where
  "cupAt x = \<lparr>label = ''cup'', confidence = 1, bounding_box = (x, 0, x, 10)\<rparr>"

definition resultOf :: "string \<Rightarrow> DetectedObject list \<Rightarrow> ProcessingResult" where
  "resultOf cap objs =
     \<lparr>caption = Some cap, detected_objects = Some objs, guidance = Some ''guidance'',
      model_used = Some ''gpt2-mini-fusion'', fusion_enabled = Some True,
      annotated_image_base64 = None, annotated_image = None\<rparr>"

definition wrappedResponse :: "string \<Rightarrow> DetectedObject list \<Rightarrow> ApiResponse" where
  "wrappedResponse cap objs =
     \<lparr>caption = None, detected_objects = None, guidance = None, model_used = None,
      fusion_enabled = None, annotated_image_base64 = Some ''QUJD'', annotated_image = None,
      data = Some (resultOf cap objs)\<rparr>"

definition flatResponse :: "string \<Rightarrow> DetectedObject list \<Rightarrow> ApiResponse" where
  "flatResponse cap objs =
     \<lparr>caption = Some cap, detected_objects = Some objs, guidance = Some ''guidance'',
      model_used = Some ''gpt2-mini-fusion'', fusion_enabled = Some True,
      annotated_image_base64 = None, annotated_image = None, data = None\<rparr>"

section \<open>The invariant of the held instruction\<close>

definition instructionInvariant :: "Session \<Rightarrow> bool" where
  "instructionInvariant s =
     ((navigationInstructions s \<noteq> None) =
      (case result s of
         None \<Rightarrow> False
       | Some r \<Rightarrow> (case detected_objects r of None \<Rightarrow> False | Some objs \<Rightarrow> objs \<noteq> [])))"

text \<open>The closure an auto-process interval calls was made while the camera ran.\<close>

definition intervalInvariant :: "Session \<Rightarrow> bool" where
  "intervalInvariant s =
     (case processInterval s of None \<Rightarrow> True | Some c \<Rightarrow> c_isCameraRunning c)"

section \<open>Evaluation rules\<close>

lemmas envelope_defs = resultOf_def wrappedResponse_def flatResponse_def

lemmas danger_defs = isDangerous_def dangerousObjects_def toLowerCase_def toLowerCaseChar_def

lemmas scheduler_defs = step_def initial_def startCamera_def stopCamera_def
  startFrameStreaming_def stopFrameStreaming_def frameFetch_def frameAnswer_def
  autoProcessEffect_def closure_def processFrame_start_def processFrame_resume_def applyResult_def
  annotatedImageData_def truthy_def orElse_def trim_def startsWith_def isSpace_def

lemma truncate_flatResponse: "ProcessingResult.truncate (flatResponse cap objs) = resultOf cap objs"
  by (simp add: flatResponse_def resultOf_def ProcessingResult.truncate_def)

lemma flatResponse_fields:
  "caption (flatResponse cap objs) = Some cap
   \<and> detected_objects (flatResponse cap objs) = Some objs
   \<and> data (flatResponse cap objs) = None"
  by (simp add: flatResponse_def)

lemma resultOf_fields:
  "caption (resultOf cap objs) = Some cap \<and> detected_objects (resultOf cap objs) = Some objs"
  by (simp add: resultOf_def)

section \<open>Rounding\<close>

lemma roundEven_int: "roundEven (of_int m) = m"
  by (simp add: roundEven_def)

lemma roundEven_error: "\<bar>of_int (roundEven y) - y\<bar> \<le> 1 / 2"
proof -
  have "of_int \<lfloor>y\<rfloor> \<le> y" and "y < of_int \<lfloor>y\<rfloor> + 1" by linarith+
  then show ?thesis
    by (auto simp: roundEven_def Let_def)
qed

lemma binadeUp_le: "2 powi e \<le> a \<Longrightarrow> 2 powi (binadeUp n e a) \<le> a"
  by (induction n arbitrary: e) simp_all

lemma binadeUp_upper: "a < 2 powi (e + int n + 1) \<Longrightarrow> a < 2 powi (binadeUp n e a + 1)"
proof (induction n arbitrary: e)
  case 0
  then show ?case by simp
next
  case (Suc n)
  have h: "e + 1 + int n + 1 = e + int (Suc n) + 1" by simp
  have "a < 2 powi (e + 1 + int n + 1)" by (subst h) (rule Suc.prems)
  then have "a < 2 powi (binadeUp n (e + 1) a + 1)" by (rule Suc.IH)
  then show ?case by auto
qed

lemma binadeDown_upper: "a < 2 powi (e + 1) \<Longrightarrow> a < 2 powi (binadeDown n e a + 1)"
  by (induction n arbitrary: e) simp_all

lemma binadeDown_le: "2 powi (e - int n) \<le> a \<Longrightarrow> 2 powi (binadeDown n e a) \<le> a"
proof (induction n arbitrary: e)
  case 0
  then show ?case by simp
next
  case (Suc n)
  have h: "e - 1 - int n = e - int (Suc n)" by simp
  have "2 powi (e - 1 - int n) \<le> a" by (subst h) (rule Suc.prems)
  then have "2 powi (binadeDown n (e - 1) a) \<le> a" by (rule Suc.IH)
  then show ?case by auto
qed

text \<open>From the smallest normal double on, the binade of a number starts at or below it.\<close>

lemma binade_le:
  assumes "2 powi (- 1022) \<le> a"
  shows "2 powi (binade a) \<le> a"
proof (cases "1 \<le> a")
  case True
  then have "2 powi 0 \<le> a" by simp
  then have "2 powi (binadeUp 1023 0 a) \<le> a" by (rule binadeUp_le)
  with True show ?thesis by (simp add: binade_def)
next
  case False
  have "(2::real) powi (0 - int 1022) \<le> a" using assms by simp
  then have "2 powi (binadeDown 1022 0 a) \<le> a" by (rule binadeDown_le)
  with False show ?thesis by (simp add: binade_def)
qed

lemma binade_upper:
  assumes "a < 2 powi 1024"
  shows "a < 2 powi (binade a + 1)"
proof (cases "1 \<le> a")
  case True
  have "a < 2 powi (0 + int 1023 + 1)" using assms by simp
  then have "a < 2 powi (binadeUp 1023 0 a + 1)" by (rule binadeUp_upper)
  with True show ?thesis by (simp add: binade_def)
next
  case False
  then have "a < 2 powi (0 + 1)" by simp
  then have "a < 2 powi (binadeDown 1022 0 a + 1)" by (rule binadeDown_upper)
  with False show ?thesis by (simp add: binade_def)
qed

lemma binade_eq:
  assumes lo: "2 powi e \<le> a" and hi: "a < 2 powi (e + 1)"
    and "- 1022 \<le> e" and "e \<le> 1023"
  shows "binade a = e"
proof -
  have "(2::real) powi (- 1022) \<le> 2 powi e"
    using assms(3) by (intro power_int_increasing) simp_all
  with lo have "2 powi (- 1022) \<le> a" by simp
  then have l: "2 powi (binade a) \<le> a" by (rule binade_le)
  have "(2::real) powi (e + 1) \<le> 2 powi 1024"
    using assms(4) by (intro power_int_increasing) simp_all
  with hi have "a < 2 powi 1024" by simp
  then have u: "a < 2 powi (binade a + 1)" by (rule binade_upper)
  from l hi have "(2::real) powi (binade a) < 2 powi (e + 1)" by simp
  then have "binade a < e + 1"
    by (metis not_less power_int_increasing one_le_numeral)
  moreover from lo u have "(2::real) powi e < 2 powi (binade a + 1)" by simp
  then have "e < binade a + 1"
    by (metis not_less power_int_increasing one_le_numeral)
  ultimately show ?thesis by simp
qed

text \<open>The value of \<open>fl\<close> at a number whose binade is known.\<close>

lemma fl_eval:
  assumes "2 powi e \<le> \<bar>x\<bar>" and "\<bar>x\<bar> < 2 powi (e + 1)" and "- 1022 \<le> e" and "e \<le> 1023"
  shows "fl x = of_int (roundEven (x / 2 powi (e - 52))) * 2 powi (e - 52)"
proof -
  have "binade \<bar>x\<bar> = e" using assms by (rule binade_eq)
  moreover have "x \<noteq> 0"
  proof -
    have "0 < (2::real) powi e" by simp
    with assms(1) have "0 < \<bar>x\<bar>" by linarith
    then show ?thesis by simp
  qed
  ultimately show ?thesis by (simp add: fl_def)
qed

text \<open>A double is rounded to itself.\<close>

lemma fl_exact:
  assumes "2 powi e \<le> \<bar>x\<bar>" and "\<bar>x\<bar> < 2 powi (e + 1)" and "- 1022 \<le> e" and "e \<le> 1023"
    and m: "x / 2 powi (e - 52) = of_int m"
  shows "fl x = x"
proof -
  have "fl x = of_int (roundEven (x / 2 powi (e - 52))) * 2 powi (e - 52)"
    using assms(1-4) by (rule fl_eval)
  also have "\<dots> = x / 2 powi (e - 52) * 2 powi (e - 52)"
    by (simp only: m roundEven_int)
  also have "\<dots> = x" by simp
  finally show ?thesis .
qed

lemma fl_int:
  assumes "\<bar>k\<bar> < 2 ^ 53"
  shows "fl (of_int k) = of_int k"
proof (cases "k = 0")
  case True
  then show ?thesis by (simp add: fl_def)
next
  case False
  define a where "a = \<bar>real_of_int k\<bar>"
  define e where "e = binade a"
  have "1 \<le> a" using False by (simp add: a_def)
  moreover have "(2::real) powi (- 1022) \<le> 1"
    using power_int_increasing [of "- 1022" 0 "2::real"] by simp
  ultimately have "2 powi (- 1022) \<le> a" by linarith
  then have le: "2 powi e \<le> a" unfolding e_def by (rule binade_le)
  have "a < 2 ^ 53"
  proof -
    have "real_of_int \<bar>k\<bar> < real_of_int (2 ^ 53)" using assms by (simp only: of_int_less_iff)
    then show ?thesis by (simp add: a_def)
  qed
  with le have "(2::real) powi e < 2 powi 53" by simp
  then have "e < 53"
    by (metis not_less power_int_increasing one_le_numeral)
  then have nn: "0 \<le> 52 - e" by simp
  have scale: "1 / 2 powi (e - 52) = (2::real) ^ nat (52 - e)"
  proof -
    have "(2::real) ^ nat (52 - e) = 2 powi (52 - e)"
      using nn by (simp add: power_int_nonneg_exp)
    also have "\<dots> = 2 powi (- (e - 52))" by simp
    also have "\<dots> = 1 / 2 powi (e - 52)" by (rule power_int_minus_divide)
    finally show ?thesis by simp
  qed
  have "real_of_int k / 2 powi (e - 52) = real_of_int k * (1 / 2 powi (e - 52))" by simp
  also have "\<dots> = real_of_int (k * 2 ^ nat (52 - e))" by (simp add: scale)
  finally have "roundEven (real_of_int k / 2 powi (e - 52)) = k * 2 ^ nat (52 - e)"
    by (simp only: roundEven_int)
  then have "real_of_int (roundEven (real_of_int k / 2 powi (e - 52))) * 2 powi (e - 52)
      = real_of_int k * (2 ^ nat (52 - e) * 2 powi (e - 52))"
    by simp
  also have "(2::real) ^ nat (52 - e) * 2 powi (e - 52) = 1"
    using scale by (simp add: field_simps)
  finally show ?thesis
    using False by (simp add: fl_def e_def a_def)
qed

lemma fl_numeral: "numeral k < (2::int) ^ 53 \<Longrightarrow> fl (numeral k) = numeral k"
  using fl_int [of "numeral k"] by simp

text \<open>From the smallest normal double on, rounding moves a number by at most one part in \<open>2 ^ 53\<close>.\<close>

lemma fl_error:
  assumes "2 powi (- 1022) \<le> \<bar>x\<bar>"
  shows "\<bar>fl x - x\<bar> \<le> \<bar>x\<bar> / 2 ^ 53"
proof -
  define e where "e = binade \<bar>x\<bar>"
  define u where "u = (2::real) powi (e - 52)"
  have upos: "0 < u" by (simp add: u_def)
  have le: "2 powi e \<le> \<bar>x\<bar>" unfolding e_def using assms by (rule binade_le)
  have "x \<noteq> 0"
  proof -
    have "0 < (2::real) powi (- 1022)" by (rule zero_less_power_int) simp
    with assms have "0 < \<bar>x\<bar>" by linarith
    then show ?thesis by simp
  qed
  then have fl: "fl x = of_int (roundEven (x / u)) * u"
    by (simp add: fl_def e_def u_def)
  have "\<bar>of_int (roundEven (x / u)) - x / u\<bar> \<le> 1 / 2" by (rule roundEven_error)
  then have "\<bar>of_int (roundEven (x / u)) - x / u\<bar> * u \<le> 1 / 2 * u"
    using upos by (simp add: mult_right_mono)
  moreover have "\<bar>of_int (roundEven (x / u)) - x / u\<bar> * u = \<bar>fl x - x\<bar>"
  proof -
    have "\<bar>of_int (roundEven (x / u)) - x / u\<bar> * u = \<bar>(of_int (roundEven (x / u)) - x / u) * u\<bar>"
      using upos by (simp add: abs_mult)
    also have "(of_int (roundEven (x / u)) - x / u) * u = fl x - x"
      using upos by (simp add: fl field_simps)
    finally show ?thesis .
  qed
  ultimately have "\<bar>fl x - x\<bar> \<le> u / 2" by simp
  also have "u / 2 = 2 powi e / 2 ^ 53"
  proof -
    have "(2::real) powi (e - 52) = 2 powi e / 2 powi 52"
      by (rule power_int_diff) simp
    then show ?thesis by (simp add: u_def)
  qed
  also have "\<dots> \<le> \<bar>x\<bar> / 2 ^ 53" using le by (simp add: divide_right_mono)
  finally show ?thesis .
qed

lemma fl_near:
  assumes "1 / 4 \<le> x"
  shows "7 / 8 * x \<le> fl x \<and> fl x \<le> 9 / 8 * x"
proof -
  have "(2::real) powi (- 1022) \<le> 2 powi (- 2)"
    by (rule power_int_increasing) simp_all
  also have "(2::real) powi (- 2) = 1 / 4" by simp
  finally have "2 powi (- 1022) \<le> \<bar>x\<bar>" using assms by simp
  then have "\<bar>fl x - x\<bar> \<le> \<bar>x\<bar> / 2 ^ 53" by (rule fl_error)
  moreover have "\<bar>x\<bar> / 2 ^ 53 \<le> x / 8" using assms by simp
  ultimately have "\<bar>fl x - x\<bar> \<le> x / 8" by linarith
  then show ?thesis by (intro conjI; linarith)
qed

text \<open>For a width of a pixel or more, the first threshold of the code is below the second.\<close>

lemma thresholds_ordered:
  assumes "1 \<le> w"
  shows "fl (w / 3) < fl (fl (2 * w) / 3)"
proof -
  have "fl (w / 3) \<le> 9 / 8 * (w / 3)"
    using fl_near [of "w / 3"] assms by simp
  moreover have d: "7 / 8 * (2 * w) \<le> fl (2 * w)"
    using fl_near [of "2 * w"] assms by simp
  have "1 / 4 \<le> fl (2 * w) / 3" using d assms by simp
  then have "7 / 8 * (fl (2 * w) / 3) \<le> fl (fl (2 * w) / 3)"
    using fl_near [of "fl (2 * w) / 3"] by simp
  ultimately show ?thesis using d assms by simp
qed

text \<open>The thresholds the code computes for a width of 640 and of 1024.\<close>

lemma fl_640_3: "fl (640 / 3) = 7505999378950827 / 2 ^ 45"
proof -
  have "fl (640 / 3) = of_int (roundEven (640 / 3 / 2 powi (7 - 52))) * 2 powi (7 - 52)"
    by (rule fl_eval) simp_all
  also have "roundEven (640 / 3 / 2 powi (7 - 52)) = 7505999378950827"
    by (simp add: roundEven_def Let_def)
  finally show ?thesis by simp
qed

lemma fl_1280_3: "fl (1280 / 3) = 7505999378950827 / 2 ^ 44"
proof -
  have "fl (1280 / 3) = of_int (roundEven (1280 / 3 / 2 powi (8 - 52))) * 2 powi (8 - 52)"
    by (rule fl_eval) simp_all
  also have "roundEven (1280 / 3 / 2 powi (8 - 52)) = 7505999378950827"
    by (simp add: roundEven_def Let_def)
  finally show ?thesis by simp
qed

lemma fl_1024_3: "fl (1024 / 3) = 6004799503160661 / 2 ^ 44"
proof -
  have "fl (1024 / 3) = of_int (roundEven (1024 / 3 / 2 powi (8 - 52))) * 2 powi (8 - 52)"
    by (rule fl_eval) simp_all
  also have "roundEven (1024 / 3 / 2 powi (8 - 52)) = 6004799503160661"
    by (simp add: roundEven_def Let_def)
  finally show ?thesis by simp
qed

lemma fl_2048_3: "fl (2048 / 3) = 6004799503160661 / 2 ^ 43"
proof -
  have "fl (2048 / 3) = of_int (roundEven (2048 / 3 / 2 powi (9 - 52))) * 2 powi (9 - 52)"
    by (rule fl_eval) simp_all
  also have "roundEven (2048 / 3 / 2 powi (9 - 52)) = 6004799503160661"
    by (simp add: roundEven_def Let_def)
  finally show ?thesis by simp
qed


lemma twoThirds_1024: "fl (fl (2 * 1024) / 3) = 6004799503160661 / 2 ^ 43"
proof -
  have "fl (2 * 1024) = fl 2048" by simp
  also have "fl 2048 = 2048" by (rule fl_numeral) simp
  finally show ?thesis by (simp only: fl_2048_3)
qed

text \<open>
  The double \<^verbatim>\<open>426.6666666666667\<close> is \<open>7505999378950827 / 2 ^ 44\<close> and the double
  \<^verbatim>\<open>341.3333333333333\<close> is \<open>6004799503160661 / 2 ^ 44\<close>. The centre the code
  computes for a box with both edges at one of them is that double again.
\<close>

lemma centerX_cupAt: "centerX (cupAt x) = fl (fl (x + x) / 2)"
  by (simp add: centerX_def cupAt_def)


lemma centerX_cupAt_1024: "centerX (cupAt (6004799503160661 / 2 ^ 44)) = 6004799503160661 / 2 ^ 44"
proof -
  have s: "(6004799503160661 / 2 ^ 44 + 6004799503160661 / 2 ^ 44 :: real) = 6004799503160661 / 2 ^ 43"
    by simp
  have a: "fl (6004799503160661 / 2 ^ 43) = 6004799503160661 / 2 ^ 43"
    by (rule fl_exact [where e = 9 and m = 6004799503160661]) simp_all
  have h: "(6004799503160661 / 2 ^ 43 / 2 :: real) = 6004799503160661 / 2 ^ 44"
    by simp
  have b: "fl (6004799503160661 / 2 ^ 44) = 6004799503160661 / 2 ^ 44"
    by (rule fl_exact [where e = 8 and m = 6004799503160661]) simp_all
  show ?thesis by (simp only: centerX_cupAt s a h b)
qed


lemma centerX_scene: "centerX chair = 150 \<and> centerX person = 320 \<and> centerX table = 550"
  by (simp add: centerX_def chair_def person_def table_def fl_numeral)

section \<open>Zone classifier\<close>

lemma effectiveWidth_ge1: "1 \<le> effectiveWidth nw"
  by (simp add: effectiveWidth_def split: option.split)

lemma effectiveWidth_natural: "0 < n \<Longrightarrow> effectiveWidth (Some n) = real n"
  by (simp add: effectiveWidth_def)

lemma inZone_Right: "inZone ZoneRight w obj \<longleftrightarrow> centerX obj < fl (w / 3)"
  by (simp add: inZone_def)

lemma inZone_Left: "inZone ZoneLeft w obj \<longleftrightarrow> fl (fl (2 * w) / 3) < centerX obj"
  by (simp add: inZone_def)

lemma inZone_Front:
  "inZone ZoneFront w obj \<longleftrightarrow> fl (w / 3) \<le> centerX obj \<and> centerX obj \<le> fl (fl (2 * w) / 3)"
  by (simp add: inZone_def)

lemma getObjectsInZone_iff:
  "obj \<in> set (getObjectsInZone (Some r) nw z) \<longleftrightarrow>
     (\<exists>objs. detected_objects r = Some objs \<and> obj \<in> set objs \<and> inZone z (effectiveWidth nw) obj)"
  by (cases "detected_objects r") (simp_all add: getObjectsInZone_def)

lemma inZone_unique:
  assumes "1 \<le> w"
  shows "\<exists>!z. inZone z w obj"
proof -
  from assms have third: "fl (w / 3) < fl (fl (2 * w) / 3)" by (rule thresholds_ordered)
  consider (r) "centerX obj < fl (w / 3)" | (l) "fl (fl (2 * w) / 3) < centerX obj"
    | (f) "fl (w / 3) \<le> centerX obj" "centerX obj \<le> fl (fl (2 * w) / 3)"
    by linarith
  then show ?thesis
  proof cases
    case r
    then have "inZone ZoneRight w obj" by (simp add: inZone_Right)
    moreover have "z = ZoneRight" if "inZone z w obj" for z
      using that r third by (cases z) (simp_all add: inZone_Left inZone_Front)
    ultimately show ?thesis by blast
  next
    case l
    then have "inZone ZoneLeft w obj" by (simp add: inZone_Left)
    moreover have "z = ZoneLeft" if "inZone z w obj" for z
      using that l third by (cases z) (simp_all add: inZone_Right inZone_Front)
    ultimately show ?thesis by blast
  next
    case f
    then have "inZone ZoneFront w obj" by (simp add: inZone_Front)
    moreover have "z = ZoneFront" if "inZone z w obj" for z
      using that f by (cases z) (simp_all add: inZone_Right inZone_Left)
    ultimately show ?thesis by blast
  qed
qed

lemma getObjectsInZone_unique:
  assumes "detected_objects r = Some objs" and "obj \<in> set objs"
  shows "\<exists>!z. obj \<in> set (getObjectsInZone (Some r) nw z)"
proof -
  have "\<exists>!z. inZone z (effectiveWidth nw) obj"
    using effectiveWidth_ge1 by (rule inZone_unique)
  then show ?thesis using assms by (simp add: getObjectsInZone_iff)
qed

lemma getObjectsInZone_width0:
  "getObjectsInZone res (Some 0) z = getObjectsInZone res (Some 640) z"
proof -
  have "effectiveWidth (Some 0) = effectiveWidth (Some 640)"
    by (simp add: effectiveWidth_def)
  then show ?thesis
    by (simp add: getObjectsInZone_def split: option.split)
qed

lemma generateNavigationInstructions_width0:
  "generateNavigationInstructions res (Some 0) objs = generateNavigationInstructions res (Some 640) objs"
  by (simp add: generateNavigationInstructions_def getObjectsInZone_width0)

text \<open>The zones of the example scene in a frame 640 wide.\<close>

lemma chair_zone: "inZone z 640 chair \<longleftrightarrow> z = ZoneRight"
  by (cases z) (simp_all add: inZone_def centerX_scene fl_640_3 fl_1280_3 fl_numeral)

lemma person_zone: "inZone z 640 person \<longleftrightarrow> z = ZoneFront"
  by (cases z) (simp_all add: inZone_def centerX_scene fl_640_3 fl_1280_3 fl_numeral)

lemma table_zone: "inZone z 640 table \<longleftrightarrow> z = ZoneLeft"
  by (cases z) (simp_all add: inZone_def centerX_scene fl_640_3 fl_1280_3 fl_numeral)

lemma scene_danger: "isDangerous chair \<and> isDangerous person \<and> isDangerous table"
  by (simp add: danger_defs chair_def person_def table_def)

lemma scene_labels:
  "label chair = ''chair'' \<and> label person = ''person'' \<and> label table = ''table''"
  by (simp add: chair_def person_def table_def)



text \<open>
  Claim C10. An object of the held result is in exactly one of the three lists of
  getObjectsInZone, whatever the image width, zero and a missing image included; and for a
  positive image width the three lists are the three tests in the arithmetic of the code:
  RIGHT a centre below the third of the width, LEFT a centre above the two thirds, FRONT a
  centre from the third to the two thirds, both ends included.
\<close>

theorem zone_partition:
  assumes "detected_objects r = Some objs" and "obj \<in> set objs"
  shows "(\<exists>!z. obj \<in> set (getObjectsInZone (Some r) nw z))
       \<and> (0 < n \<longrightarrow>
            (obj \<in> set (getObjectsInZone (Some r) (Some n) ZoneRight)
               \<longleftrightarrow> centerX obj < fl (real n / 3))
          \<and> (obj \<in> set (getObjectsInZone (Some r) (Some n) ZoneLeft)
               \<longleftrightarrow> fl (fl (2 * real n) / 3) < centerX obj)
          \<and> (obj \<in> set (getObjectsInZone (Some r) (Some n) ZoneFront)
               \<longleftrightarrow> fl (real n / 3) \<le> centerX obj \<and> centerX obj \<le> fl (fl (2 * real n) / 3)))"
proof -
  have "\<exists>!z. inZone z (effectiveWidth nw) obj"
    using effectiveWidth_ge1 by (rule inZone_unique)
  then have one: "\<exists>!z. obj \<in> set (getObjectsInZone (Some r) nw z)"
    using assms by (simp add: getObjectsInZone_iff)
  have "obj \<in> set (getObjectsInZone (Some r) (Some n) z) \<longleftrightarrow> inZone z (real n) obj"
    if "0 < n" for z
    using assms that by (simp add: getObjectsInZone_iff effectiveWidth_natural)
  then show ?thesis
    using one by (simp add: inZone_Right inZone_Left inZone_Front)
qed

text \<open>
  At width 1024 a box with both edges at the double \<^verbatim>\<open>341.3333333333333\<close>, which is
  the third the code computes, is in exactly one list, the FRONT one.
\<close>

theorem zone_partition_witness:
  "(\<exists>!z. cupAt (6004799503160661 / 2 ^ 44)
       \<in> set (getObjectsInZone (Some (resultOf ''a cup'' [cupAt (6004799503160661 / 2 ^ 44)]))
                (Some 1024) z))
   \<and> cupAt (6004799503160661 / 2 ^ 44)
       \<in> set (getObjectsInZone (Some (resultOf ''a cup'' [cupAt (6004799503160661 / 2 ^ 44)]))
                (Some 1024) ZoneFront)"
proof -
  have third: "fl (real 1024 / 3) = 6004799503160661 / 2 ^ 44"
    using fl_1024_3 by simp
  have twoThirds: "fl (fl (2 * real 1024) / 3) = 6004799503160661 / 2 ^ 43"
    using twoThirds_1024 by simp
  have front: "fl (real 1024 / 3) \<le> centerX (cupAt (6004799503160661 / 2 ^ 44))
      \<and> centerX (cupAt (6004799503160661 / 2 ^ 44)) \<le> fl (fl (2 * real 1024) / 3)"
    by (simp only: third twoThirds centerX_cupAt_1024) simp
  show ?thesis
    using zone_partition [of "resultOf ''a cup'' [cupAt (6004799503160661 / 2 ^ 44)]"
        "[cupAt (6004799503160661 / 2 ^ 44)]" "cupAt (6004799503160661 / 2 ^ 44)"
        "Some 1024" 1024] front
    by (simp add: resultOf_fields)
qed

text \<open>
  Claim C5, as the code has it. No classification fails: for a natural width of 0 the
  code divides 640 instead, so the zone lists and the instruction are those of a frame
  640 wide, and the answer to a processing request leaves both intervals as they were.
\<close>

theorem zero_width_falls_back:
  "getObjectsInZone res (Some 0) z = getObjectsInZone res (Some 640) z
   \<and> generateNavigationInstructions res (Some 0) objs = generateNavigationInstructions res (Some 640) objs
   \<and> frameStream (processFrame_resume c r (s\<lparr>naturalWidth := Some 0\<rparr>)) = frameStream s
   \<and> processInterval (processFrame_resume c r (s\<lparr>naturalWidth := Some 0\<rparr>)) = processInterval s"
proof -
  have w: "effectiveWidth (Some 0) = effectiveWidth (Some 640)"
    by (simp add: effectiveWidth_def)
  have z: "getObjectsInZone res (Some 0) z = getObjectsInZone res (Some 640) z" for z
    by (simp add: getObjectsInZone_def w split: option.split)
  have g: "generateNavigationInstructions res (Some 0) objs = generateNavigationInstructions res (Some 640) objs"
    by (simp add: generateNavigationInstructions_def z)
  have f: "frameStream (processFrame_resume c r t) = frameStream t
      \<and> processInterval (processFrame_resume c r t) = processInterval t" for t
    by (simp add: processFrame_resume_def applyResult_def split: ProcessResponse.split option.split)
  show ?thesis using z g f [of "s\<lparr>naturalWidth := Some 0\<rparr>"] by simp
qed

text \<open>
  The claim as written fails: with a natural width of 0 the chair of the example scene
  is classified, silently, into the RIGHT zone; and so it is in a run of the application,
  when a frame is processed before the first one is displayed.
\<close>

theorem zero_width_classifies:
  "getObjectsInZone (Some (resultOf ''a chair'' [chair])) (Some 0) ZoneRight = [chair]
   \<and> naturalWidth
       (run [StartCamera StartOk, ClickProcess,
             Response 0 (Ok (wrappedResponse ''a chair'' [chair])), ClickProcess,
             Response 0 (Ok (wrappedResponse ''a chair'' [chair]))] initial) = Some 0
   \<and> navigationInstructions
       (run [StartCamera StartOk, ClickProcess,
             Response 0 (Ok (wrappedResponse ''a chair'' [chair])), ClickProcess,
             Response 0 (Ok (wrappedResponse ''a chair'' [chair]))] initial) =
       Some \<lparr>direction = DirLeft, priority = Caution,
              message = ''Obstacle on right. Stay left.'', reason = ''Right side: chair''\<rparr>"
proof -
  have zone: "getObjectsInZone (Some (resultOf ''a chair'' [chair])) (Some 0) z
      = (if z = ZoneRight then [chair] else [])" for z
    by (simp add: getObjectsInZone_def effectiveWidth_def resultOf_fields chair_zone)
  have "generateNavigationInstructions (Some (resultOf ''a chair'' [chair])) (Some 0) [chair] =
      \<lparr>direction = DirLeft, priority = Caution,
       message = ''Obstacle on right. Stay left.'', reason = ''Right side: chair''\<rparr>"
    by (simp add: generateNavigationInstructions_def zone scene_danger scene_labels labels_def)
  then show ?thesis
    by (simp add: zone scheduler_defs wrappedResponse_def resultOf_fields)
qed

section \<open>Navigation decision engine\<close>

text \<open>
  When the result the closure holds lists exactly the objects passed in,
  generateNavigationInstructions is the decision procedure of the specification over the
  width the classifier divides.
\<close>

lemma inZone_spec_zone_of:
  assumes "1 \<le> w"
  shows "inZone z w obj \<longleftrightarrow> spec_zone_of w obj = z"
proof -
  from assms have "fl (w / 3) < fl (fl (2 * w) / 3)" by (rule thresholds_ordered)
  then show ?thesis
    by (cases z) (auto simp: inZone_def spec_zone_of_def)
qed

lemma getObjectsInZone_synced:
  "detected_objects r = Some objs \<Longrightarrow>
   getObjectsInZone (Some r) nw z = filter (\<lambda>obj. spec_zone_of (effectiveWidth nw) obj = z) objs"
  using effectiveWidth_ge1 [of nw]
  by (simp add: getObjectsInZone_def inZone_spec_zone_of cong: filter_cong)

lemma generateNavigationInstructions_synced:
  assumes "detected_objects r = Some objs"
  shows "generateNavigationInstructions (Some r) nw objs = spec_decide (effectiveWidth nw) objs"
  unfolding generateNavigationInstructions_def spec_decide_def getObjectsInZone_synced [OF assms] Let_def
  by simp

text \<open>
  What the engine returns in a frame 640 wide while the closure holds the chair, or the
  person, the table and the chair, whatever objects are passed in.
\<close>

lemma chair_held:
  "generateNavigationInstructions (Some (resultOf cap [chair])) (Some 640) objs =
     \<lparr>direction = DirLeft, priority = Caution,
      message = ''Obstacle on right. Stay left.'', reason = ''Right side: chair''\<rparr>"
  by (simp add: generateNavigationInstructions_def getObjectsInZone_def effectiveWidth_def
      resultOf_fields chair_zone scene_danger scene_labels labels_def)

lemma room_held:
  "generateNavigationInstructions (Some (resultOf cap [person, table, chair])) (Some 640) objs =
     \<lparr>direction = DirStop, priority = Danger,
      message = ''Stop! Obstacles in all directions.'', reason = ''Multiple obstacles detected''\<rparr>"
  by (simp add: generateNavigationInstructions_def getObjectsInZone_def effectiveWidth_def
      resultOf_fields chair_zone person_zone table_zone scene_danger)

lemma scenario_C_synced:
  "generateNavigationInstructions (Some (resultOf ''a chair'' [chair])) (Some 640) [chair] =
     \<lparr>direction = DirLeft, priority = Caution,
      message = ''Obstacle on right. Stay left.'', reason = ''Right side: chair''\<rparr>"
  by (rule chair_held)

lemma scenario_D_synced:
  "generateNavigationInstructions (Some (resultOf ''a room'' [person, table, chair])) (Some 640)
     [person, table, chair] =
     \<lparr>direction = DirStop, priority = Danger,
      message = ''Stop! Obstacles in all directions.'', reason = ''Multiple obstacles detected''\<rparr>"
  by (rule room_held)

text \<open>
  In a run the instruction is one result behind: with the chair held from the first
  answer, a second answer that reports only the person, straight ahead, is announced as
  an obstacle on the right.
\<close>

lemma second_frame_uses_previous_result:
  "navigationInstructions
     (run [StartCamera StartOk, StreamingTimeout, FrameTick, FrameResponse 0 (Some 640),
           ClickProcess, Response 0 (Ok (wrappedResponse ''a chair'' [chair])), ClickProcess,
           Response 0 (Ok (wrappedResponse ''a person'' [person]))] initial) =
     Some \<lparr>direction = DirLeft, priority = Caution,
            message = ''Obstacle on right. Stay left.'', reason = ''Right side: chair''\<rparr>"
  by (simp add: scheduler_defs wrappedResponse_def resultOf_fields chair_held)

text \<open>
  Claim C3, at the input where the code departs from it. The camera has started and a
  frame 640 wide is shown; the first processing request is answered with one chair
  centred at 150 (Scenario C), or with the person, the table and the chair (Scenario D).
  The zone lists are read from the result of the closure that sent the request, which is
  absent, so every list is empty and the instruction stored is FORWARD, SAFE.
\<close>

theorem first_frame_reports_clear_path:
  "navigationInstructions
     (run [StartCamera StartOk, StreamingTimeout, FrameTick, FrameResponse 0 (Some 640),
           ClickProcess, Response 0 (Ok (wrappedResponse ''a chair'' [chair]))] initial) =
     Some \<lparr>direction = DirForward, priority = Safe,
            message = ''Clear path ahead. Safe to proceed.'', reason = ''No obstacles detected''\<rparr>
   \<and> navigationInstructions
     (run [StartCamera StartOk, StreamingTimeout, FrameTick, FrameResponse 0 (Some 640),
           ClickProcess,
           Response 0 (Ok (wrappedResponse ''a room'' [person, table, chair]))] initial) =
     Some \<lparr>direction = DirForward, priority = Safe,
            message = ''Clear path ahead. Safe to proceed.'', reason = ''No obstacles detected''\<rparr>"
  by (simp add: scheduler_defs envelope_defs generateNavigationInstructions_def getObjectsInZone_def)

text \<open>With nothing in the zone lists of the held result, the engine returns rule 4.\<close>

lemma clear_when_zones_empty:
  assumes "getObjectsInZone res nw ZoneLeft = []"
    and "getObjectsInZone res nw ZoneFront = []"
    and "getObjectsInZone res nw ZoneRight = []"
  shows "generateNavigationInstructions res nw objs =
     \<lparr>direction = DirForward, priority = Safe,
      message = ''Clear path ahead. Safe to proceed.'', reason = ''No obstacles detected''\<rparr>"
  using assms by (simp add: generateNavigationInstructions_def)


text \<open>
  In the application the engine is called for a sequence that is not empty only (line
  468): an answer with no object stores no instruction.
\<close>

lemma empty_answer_stores_no_instruction:
  "navigationInstructions
     (run [StartCamera StartOk, StreamingTimeout, FrameTick, FrameResponse 0 (Some 640),
           ClickProcess, Response 0 (Ok (wrappedResponse ''an empty hallway'' []))] initial) = None"
  by (simp add: scheduler_defs envelope_defs)

section \<open>Scheduler: requests in flight\<close>

text \<open>
  Claim C1, at the input where the code departs from it. The camera runs and auto-process
  is on. After the first firing of the interval one request is pending and isProcessing
  holds; the second firing sends a second request, so two are in flight.
\<close>

theorem auto_tick_while_pending:
  "isProcessing (run [StartCamera StartOk, SetAutoProcess True, AutoProcessTick] initial)
   \<and> length (inFlight (run [StartCamera StartOk, SetAutoProcess True, AutoProcessTick] initial)) = 1
   \<and> length (inFlight (run [StartCamera StartOk, SetAutoProcess True, AutoProcessTick,
                              AutoProcessTick] initial)) = 2"
  by (simp add: scheduler_defs)

text \<open>The process button, in the same state, sends nothing.\<close>

lemma click_while_pending:
  "isProcessing s \<Longrightarrow> step ClickProcess s = s"
  by (simp add: step_def autoProcessEffect_def)

text \<open>
  In every state of a run, a firing of the auto-process interval sends a request,
  whatever isProcessing is and however many requests are pending.
\<close>

lemma handle_processInterval: "processInterval (handle e s) = processInterval s"
proof (cases e)
  case (StartCamera r)
  then show ?thesis by (simp add: startCamera_def split: StartResponse.split)
next
  case (StopCamera r)
  then show ?thesis by (simp add: stopCamera_def stopFrameStreaming_def split: StopResponse.split)
next
  case StreamingTimeout
  then show ?thesis by (simp add: startFrameStreaming_def)
next
  case FrameTick
  then show ?thesis by (simp add: frameFetch_def split: option.split)
next
  case (FrameResponse i f)
  then show ?thesis by (simp add: frameAnswer_def split: option.split)
next
  case (SetAutoProcess b)
  then show ?thesis by simp
next
  case (SetVoiceEnabled b)
  then show ?thesis by simp
next
  case ClickProcess
  then show ?thesis by (simp add: processFrame_start_def)
next
  case AutoProcessTick
  then show ?thesis by (simp add: processFrame_start_def split: option.split)
next
  case (Response i r)
  then show ?thesis
    by (simp add: processFrame_resume_def applyResult_def split: ProcessResponse.split option.split)
qed

lemma intervalInvariant_step:
  assumes "intervalInvariant s"
  shows "intervalInvariant (step e s)"
proof -
  have "intervalInvariant (handle e s)"
    using assms by (simp add: intervalInvariant_def handle_processInterval)
  then show ?thesis
    by (simp add: step_def autoProcessEffect_def intervalInvariant_def closure_def)
qed

lemma intervalInvariant_run:
  "intervalInvariant s \<Longrightarrow> intervalInvariant (run es s)"
  by (induction es arbitrary: s) (simp_all add: intervalInvariant_step)

lemma auto_tick_always_sends:
  assumes "processInterval (run es initial) = Some c"
  shows "inFlight (step AutoProcessTick (run es initial)) = inFlight (run es initial) @ [c]"
proof -
  have "intervalInvariant initial"
    by (simp add: intervalInvariant_def initial_def)
  then have "intervalInvariant (run es initial)" by (rule intervalInvariant_run)
  with assms have "c_isCameraRunning c" by (simp add: intervalInvariant_def)
  with assms show ?thesis
    by (simp add: step_def processFrame_start_def autoProcessEffect_def)
qed

text \<open>
  Claim C2, as the code has it. Once the stop request has resolved, the held result and
  instruction are absent and the camera is off; a processing request that was pending
  stays pending, and when its answer arrives with the result under the data key, that
  result is stored although the camera is off.
\<close>

theorem stop_clears_then_late_result:
  assumes "i < length (inFlight s)"
  shows "result (step (StopCamera StopResolved) s) = None
     \<and> navigationInstructions (step (StopCamera StopResolved) s) = None
     \<and> \<not> isCameraRunning (step (StopCamera StopResolved) s)
     \<and> inFlight (step (StopCamera StopResolved) s) = inFlight s
     \<and> result (step (Response i (Ok (dat\<lparr>data := Some d\<rparr>))) (step (StopCamera StopResolved) s)) = Some d
     \<and> \<not> isCameraRunning (step (Response i (Ok (dat\<lparr>data := Some d\<rparr>))) (step (StopCamera StopResolved) s))"
  using assms
  by (simp add: step_def stopCamera_def stopFrameStreaming_def autoProcessEffect_def
      processFrame_resume_def applyResult_def)

theorem stop_clears_then_late_result_witness:
  "result (step (StopCamera StopResolved)
       (run [StartCamera StartOk, StreamingTimeout, FrameTick, FrameResponse 0 (Some 640),
             ClickProcess] initial)) = None
   \<and> result (step (Response 0 (Ok ((wrappedResponse ''a person'' [person])
                                      \<lparr>data := Some (resultOf ''a person'' [person])\<rparr>)))
       (step (StopCamera StopResolved)
          (run [StartCamera StartOk, StreamingTimeout, FrameTick, FrameResponse 0 (Some 640),
                ClickProcess] initial))) =
     Some (resultOf ''a person'' [person])"
proof -
  have pending: "0 < length (inFlight (run [StartCamera StartOk, StreamingTimeout, FrameTick,
      FrameResponse 0 (Some 640), ClickProcess] initial))"
    by (simp add: step_def initial_def startCamera_def startFrameStreaming_def frameFetch_def
        frameAnswer_def autoProcessEffect_def closure_def processFrame_start_def)
  show ?thesis
    using stop_clears_then_late_result
      [OF pending, where dat = "wrappedResponse ''a person'' [person]"
         and d = "resultOf ''a person'' [person]"]
    by simp
qed

text \<open>
  The claim as written fails: the camera is stopped while a request is pending, the
  answer arrives afterwards, and the session then holds its result and an instruction.
\<close>

theorem late_result_applied:
  "result (run [StartCamera StartOk, StreamingTimeout, FrameTick, FrameResponse 0 (Some 640),
           ClickProcess, StopCamera StopResolved,
           Response 0 (Ok (wrappedResponse ''a person'' [person]))] initial) =
     Some (resultOf ''a person'' [person])
   \<and> navigationInstructions (run [StartCamera StartOk, StreamingTimeout, FrameTick,
           FrameResponse 0 (Some 640), ClickProcess, StopCamera StopResolved,
           Response 0 (Ok (wrappedResponse ''a person'' [person]))] initial) \<noteq> None
   \<and> \<not> isCameraRunning (run [StartCamera StartOk, StreamingTimeout, FrameTick,
           FrameResponse 0 (Some 640), ClickProcess, StopCamera StopResolved,
           Response 0 (Ok (wrappedResponse ''a person'' [person]))] initial)"
  by (simp add: scheduler_defs envelope_defs)

text \<open>
  The frame polling has the same shape. A frame request answered after the stop is still
  counted, so the frame counter leaves 0 again; and a stop inside the 500 ms before
  startFrameStreaming runs leaves the frame interval set with the camera off.
\<close>

lemma late_frame_counted:
  "frameCount (run [StartCamera StartOk, StreamingTimeout, FrameTick, StopCamera StopResolved,
                    FrameResponse 0 (Some 640)] initial) = 1"
  by (simp add: scheduler_defs)

lemma stop_before_streaming_starts:
  "frameStream (run [StartCamera StartOk, StopCamera StopResolved, StreamingTimeout] initial) = Some 0
   \<and> \<not> isCameraRunning (run [StartCamera StartOk, StopCamera StopResolved, StreamingTimeout] initial)"
  by (simp add: scheduler_defs)

section \<open>Scheduler: the held instruction\<close>

lemma invariant_eq:
  "result t = result s \<Longrightarrow> navigationInstructions t = navigationInstructions s \<Longrightarrow>
   instructionInvariant s \<Longrightarrow> instructionInvariant t"
  by (simp add: instructionInvariant_def)

lemma startCamera_keeps:
  "result (startCamera r s) = result s
   \<and> navigationInstructions (startCamera r s) = navigationInstructions s"
  by (simp add: startCamera_def split: StartResponse.split)

lemma startFrameStreaming_keeps:
  "result (startFrameStreaming s) = result s
   \<and> navigationInstructions (startFrameStreaming s) = navigationInstructions s"
  by (simp add: startFrameStreaming_def)

lemma frameFetch_keeps:
  "result (frameFetch k s) = result s
   \<and> navigationInstructions (frameFetch k s) = navigationInstructions s"
  by (simp add: frameFetch_def)

lemma frameAnswer_keeps:
  "result (frameAnswer k f s) = result s
   \<and> navigationInstructions (frameAnswer k f s) = navigationInstructions s"
  by (simp add: frameAnswer_def split: option.split)

lemma processFrame_start_keeps:
  "result (processFrame_start c s) = result s
   \<and> navigationInstructions (processFrame_start c s) = navigationInstructions s"
  by (simp add: processFrame_start_def)

lemma invariant_stopCamera:
  "instructionInvariant s \<Longrightarrow> instructionInvariant (stopCamera r s)"
  by (cases r) (simp_all add: stopCamera_def stopFrameStreaming_def instructionInvariant_def)

lemma invariant_applyResult: "instructionInvariant (applyResult c d dat s)"
  by (simp add: instructionInvariant_def applyResult_def split: option.split)

lemma invariant_resume:
  assumes inv: "instructionInvariant s"
  shows "instructionInvariant (processFrame_resume c r s)"
proof (cases r)
  case (Rejected err)
  then show ?thesis
    using inv by (simp add: processFrame_resume_def instructionInvariant_def)
next
  case (NotOk detail)
  then show ?thesis
    using inv by (simp add: processFrame_resume_def instructionInvariant_def)
next
  case (Ok dat)
  have "instructionInvariant (s\<lparr>error := e, isProcessing := False\<rparr>)" for e
    using inv by (simp add: instructionInvariant_def)
  then show ?thesis
    using Ok by (simp add: processFrame_resume_def invariant_applyResult split: option.split)
qed

lemma invariant_handle:
  assumes inv: "instructionInvariant s"
  shows "instructionInvariant (handle e s)"
proof (cases e)
  case (StartCamera r)
  have "instructionInvariant (startCamera r s)"
    using inv by (rule invariant_eq [rotated 2]) (simp_all add: startCamera_keeps)
  then show ?thesis using StartCamera by simp
next
  case (StopCamera r)
  then show ?thesis using inv by (simp add: invariant_stopCamera)
next
  case StreamingTimeout
  have "instructionInvariant (startFrameStreaming (s\<lparr>streamingTimeouts := n\<rparr>))" for n
    using inv by (rule invariant_eq [rotated 2]) (simp_all add: startFrameStreaming_keeps)
  then show ?thesis using StreamingTimeout inv by simp
next
  case FrameTick
  have "instructionInvariant (frameFetch k s)" for k
    using inv by (rule invariant_eq [rotated 2]) (simp_all add: frameFetch_keeps)
  then show ?thesis using FrameTick inv by (simp split: option.split)
next
  case (FrameResponse i f)
  have "instructionInvariant (frameAnswer k f (s\<lparr>frameFetches := xs\<rparr>))" for k xs
    using inv by (rule invariant_eq [rotated 2]) (simp_all add: frameAnswer_keeps)
  then show ?thesis using FrameResponse inv by simp
next
  case (SetAutoProcess b)
  then show ?thesis using inv by (simp add: instructionInvariant_def)
next
  case (SetVoiceEnabled b)
  then show ?thesis using inv by (simp add: instructionInvariant_def)
next
  case ClickProcess
  have "instructionInvariant (processFrame_start (closure s) s)"
    using inv by (rule invariant_eq [rotated 2]) (simp_all add: processFrame_start_keeps)
  then show ?thesis using ClickProcess inv by simp
next
  case AutoProcessTick
  have "instructionInvariant (processFrame_start c s)" for c
    using inv by (rule invariant_eq [rotated 2]) (simp_all add: processFrame_start_keeps)
  then show ?thesis using AutoProcessTick inv by (simp split: option.split)
next
  case (Response i r)
  have "instructionInvariant (s\<lparr>inFlight := xs\<rparr>)" for xs
    using inv by (simp add: instructionInvariant_def)
  then show ?thesis
    using Response inv by (simp add: invariant_resume)
qed

lemma invariant_step:
  assumes "instructionInvariant s"
  shows "instructionInvariant (step e s)"
proof -
  from assms have "instructionInvariant (handle e s)" by (rule invariant_handle)
  then show ?thesis
    by (simp add: step_def autoProcessEffect_def instructionInvariant_def)
qed

lemma invariant_run:
  "instructionInvariant s \<Longrightarrow> instructionInvariant (run es s)"
  by (induction es arbitrary: s) (simp_all add: invariant_step)

text \<open>
  Claim C6. In every state reached from the initial one by any sequence of events, an
  instruction is held if and only if a result is held and lists at least one object. In
  particular the answer to a processing request whose object list is empty, under the
  data key or flat, leaves no instruction held.
\<close>

theorem instruction_presence:
  "instructionInvariant (run es initial)
   \<and> navigationInstructions
        (processFrame_resume c (Ok (dat\<lparr>data := Some (d\<lparr>detected_objects := Some []\<rparr>)\<rparr>)) s) = None
   \<and> navigationInstructions
        (processFrame_resume c (Ok (flatResponse (x # xs) [])) s) = None"
proof -
  have "instructionInvariant initial"
    by (simp add: instructionInvariant_def initial_def)
  then have "instructionInvariant (run es initial)" by (rule invariant_run)
  moreover have "navigationInstructions
        (processFrame_resume c (Ok (dat\<lparr>data := Some (d\<lparr>detected_objects := Some []\<rparr>)\<rparr>)) s) = None"
    by (simp add: processFrame_resume_def applyResult_def)
  moreover have "navigationInstructions
        (processFrame_resume c (Ok (flatResponse (x # xs) [])) s) = None"
    by (simp add: processFrame_resume_def applyResult_def truncate_flatResponse
        flatResponse_fields truthy_def resultOf_def)
  ultimately show ?thesis by simp
qed

theorem instruction_presence_witness:
  "instructionInvariant
     (run [StartCamera StartOk, StreamingTimeout, FrameTick, FrameResponse 0 (Some 640),
           ClickProcess, Response 0 (Ok (wrappedResponse ''a chair'' [chair])), ClickProcess,
           Response 0 (Ok (wrappedResponse ''an empty hallway'' []))] initial)
   \<and> navigationInstructions
     (run [StartCamera StartOk, StreamingTimeout, FrameTick, FrameResponse 0 (Some 640),
           ClickProcess, Response 0 (Ok (wrappedResponse ''a chair'' [chair])), ClickProcess,
           Response 0 (Ok (wrappedResponse ''an empty hallway'' []))] initial) = None"
  using instruction_presence
    [of "[StartCamera StartOk, StreamingTimeout, FrameTick, FrameResponse 0 (Some 640),
           ClickProcess, Response 0 (Ok (wrappedResponse ''a chair'' [chair])), ClickProcess,
           Response 0 (Ok (wrappedResponse ''an empty hallway'' []))]"]
  by (simp add: scheduler_defs envelope_defs)

section \<open>Scheduler: stopping the camera\<close>

text \<open>
  Claim C8, as the code has it. Once the stop request has resolved, the camera-running
  flag, the auto-process flag, the held result, the held instruction and the frame counter
  have their initial values, and the voice-enabled flag keeps the value it had. When the
  stop request is rejected, the error message is set and nothing else changes: nothing is
  reset.
\<close>

theorem stop_resets:
  "isCameraRunning (step (StopCamera StopResolved) s) = isCameraRunning initial
   \<and> autoProcess (step (StopCamera StopResolved) s) = autoProcess initial
   \<and> result (step (StopCamera StopResolved) s) = result initial
   \<and> navigationInstructions (step (StopCamera StopResolved) s) = navigationInstructions initial
   \<and> frameCount (step (StopCamera StopResolved) s) = frameCount initial
   \<and> voiceEnabled (step (StopCamera StopResolved) s) = voiceEnabled s
   \<and> step (StopCamera StopRejected) s = s\<lparr>error := ''Error stopping camera''\<rparr>"
  by (simp add: step_def stopCamera_def stopFrameStreaming_def autoProcessEffect_def initial_def)

text \<open>
  The claim as written fails: voice guidance enabled before the stop is still enabled
  after it; and when the stop request is rejected nothing is reset.
\<close>

theorem stop_keeps_voice:
  "voiceEnabled (step (StopCamera StopResolved)
      (run [StartCamera StartOk, SetVoiceEnabled True] initial)) \<noteq> voiceEnabled initial
   \<and> isCameraRunning (step (StopCamera StopRejected)
      (run [StartCamera StartOk] initial)) \<noteq> isCameraRunning initial"
  by (simp add: scheduler_defs)

section \<open>Response envelopes\<close>

lemma resume_wrapped:
  "data dat = Some d \<Longrightarrow>
   result (processFrame_resume c (Ok dat) s) = Some d \<and> error (processFrame_resume c (Ok dat) s) = []"
  by (simp add: processFrame_resume_def applyResult_def)

lemma resume_flat:
  "data dat = None \<Longrightarrow> truthy (caption dat) \<Longrightarrow> detected_objects dat \<noteq> None \<Longrightarrow>
   result (processFrame_resume c (Ok dat) s) = Some (ProcessingResult.truncate dat)
   \<and> error (processFrame_resume c (Ok dat) s) = []"
  by (simp add: processFrame_resume_def applyResult_def)

text \<open>Any other shape: the error is shown and nothing else of the session changes.\<close>

lemma resume_malformed:
  "data dat = None \<Longrightarrow> \<not> (truthy (caption dat) \<and> detected_objects dat \<noteq> None) \<Longrightarrow>
   processFrame_resume c (Ok dat) s =
     s\<lparr>error := ''Invalid API response structure'', isProcessing := False\<rparr>"
  by (auto simp add: processFrame_resume_def)

text \<open>
  Claim C9, at the input where the code departs from it. A flat envelope that carries
  every field of a result, with the chair of the example scene and a caption that is the
  empty string, is answered with "Invalid API response structure" and the held result is
  kept; the same result under the data key is stored.
\<close>

theorem flat_empty_caption_rejected:
  "error (processFrame_resume c (Ok (flatResponse [] [chair])) s) = ''Invalid API response structure''
   \<and> result (processFrame_resume c (Ok (flatResponse [] [chair])) s) = result s
   \<and> result (processFrame_resume c (Ok (wrappedResponse [] [chair])) s) = Some (resultOf [] [chair])"
  by (simp add: processFrame_resume_def applyResult_def flatResponse_fields wrappedResponse_def truthy_def)

end
